theory Spec2Isabelle
  imports Main "HOL-Library.Sublist"
begin

section \<open>Data model\<close>

text \<open>
  The speaker roles are string literals in the source. The first six are the values of the
  \<open>speakerRole\<close> column of \<open>debate_participants\<close> (and of the \<open>join\<close> input); the two reply
  roles only occur as the \<open>role\<close> of a slot of the format.
\<close>

datatype role =
    prime_minister
  | leader_of_opposition
  | deputy_prime_minister
  | deputy_leader_of_opposition
  | government_whip
  | opposition_whip
  | opposition_reply
  | government_reply

datatype team = government | opposition

record slot =
  role :: role
  team :: team
  label :: string
  time :: nat

text \<open>
  \<open>SPEAKING_ORDER\<close> as the debate page declares it (eight slots). The router reads its
  format as \<open>ASIAN_PARLIAMENTARY_FORMAT.speakingOrder\<close> from the shared module
  \<open>@shared/debate\<close>, whose text is not among the sources; the procedures below therefore
  take the list as their first argument \<open>fullSpeakingOrder\<close>, and the theorems about the
  eight-slot format instantiate it with \<open>SPEAKING_ORDER\<close>, which has the roles, the order
  and the times of the format of the specification.
\<close>

definition SPEAKING_ORDER :: "slot list" where
  "SPEAKING_ORDER =
    [ \<lparr>role = prime_minister, team = government, label = ''Prime Minister'', time = 420\<rparr>,
      \<lparr>role = leader_of_opposition, team = opposition, label = ''Leader of Opposition'', time = 420\<rparr>,
      \<lparr>role = deputy_prime_minister, team = government, label = ''Deputy Prime Minister'', time = 420\<rparr>,
      \<lparr>role = deputy_leader_of_opposition, team = opposition,
         label = ''Deputy Leader of Opposition'', time = 420\<rparr>,
      \<lparr>role = government_whip, team = government, label = ''Government Whip'', time = 420\<rparr>,
      \<lparr>role = opposition_whip, team = opposition, label = ''Opposition Whip'', time = 420\<rparr>,
      \<lparr>role = opposition_reply, team = opposition, label = ''Opposition Reply'', time = 240\<rparr>,
      \<lparr>role = government_reply, team = government, label = ''Government Reply'', time = 240\<rparr> ]"

text \<open>The six values of the \<open>speakerRole\<close> enum of the schema.\<close>

definition speakerRole_enum :: "role set" where
  "speakerRole_enum =
    {prime_minister, deputy_prime_minister, government_whip,
     leader_of_opposition, deputy_leader_of_opposition, opposition_whip}"

datatype room_status = waiting | in_progress | completed_status | cancelled

datatype phase = setup_phase | debate | feedback | completed_phase

type_synonym timestamp = nat

text \<open>
  A row of \<open>debate_rooms\<close>. \<open>motionId\<close>, \<open>currentSpeakerIndex\<close>, \<open>startedAt\<close> and \<open>endedAt\<close>
  are nullable columns. The columns \<open>roomCode\<close>, \<open>format\<close>, \<open>createdAt\<close> and \<open>updatedAt\<close>
  are neither read nor set by \<open>start\<close> and \<open>advanceSpeaker\<close> and are left out.
\<close>

record debateRoom =
  room_id :: int
  creatorId :: int
  motionId :: "int option"
  status :: room_status
  currentSpeakerIndex :: "int option"
  currentPhase :: phase
  startedAt :: "timestamp option"
  endedAt :: "timestamp option"

text \<open>A row of \<open>debate_participants\<close>; \<open>isReady\<close> is a nullable boolean.\<close>

record debateParticipant =
  participant_id :: int
  roomId :: int
  userId :: int
  participant_team :: team
  speakerRole :: role
  isReady :: "bool option"

text \<open>
  The database: whether \<open>getDb\<close> yields a handle, and the two tables as lists of rows.
\<close>

record store =
  getDb :: bool
  debateRooms :: "debateRoom list"
  debateParticipants :: "debateParticipant list"

section \<open>Store operations\<close>

definition getDebateRoomById :: "store \<Rightarrow> int \<Rightarrow> debateRoom option" where
  "getDebateRoomById db i =
     (if \<not> getDb db then None else find (\<lambda>r. room_id r = i) (debateRooms db))"

definition getRoomParticipants :: "store \<Rightarrow> int \<Rightarrow> debateParticipant list" where
  "getRoomParticipants db i =
     (if \<not> getDb db then [] else filter (\<lambda>p. roomId p = i) (debateParticipants db))"

text \<open>The partial row \<open>updates\<close> is the function that sets the given columns.\<close>

definition updateDebateRoom :: "store \<Rightarrow> int \<Rightarrow> (debateRoom \<Rightarrow> debateRoom) \<Rightarrow> store" where
  "updateDebateRoom db i updates =
     (if \<not> getDb db then db
      else db\<lparr>debateRooms := map (\<lambda>r. if room_id r = i then updates r else r) (debateRooms db)\<rparr>)"

section \<open>JavaScript array primitives\<close>

text \<open>\<open>xs[i]\<close>: \<open>undefined\<close> (here \<open>None\<close>) outside the range of the array.\<close>

definition js_index :: "'a list \<Rightarrow> int \<Rightarrow> 'a option" where
  "js_index xs i = (if 0 \<le> i \<and> i < int (length xs) then Some (xs ! nat i) else None)"

text \<open>\<open>xs.findIndex(p)\<close>: the first index whose element satisfies \<open>p\<close>, or \<open>-1\<close>.\<close>

fun findIndex_from :: "('a \<Rightarrow> bool) \<Rightarrow> 'a list \<Rightarrow> int \<Rightarrow> int" where
  "findIndex_from p [] i = - 1"
| "findIndex_from p (x # xs) i = (if p x then i else findIndex_from p xs (i + 1))"

definition findIndex :: "('a \<Rightarrow> bool) \<Rightarrow> 'a list \<Rightarrow> int" where
  "findIndex p xs = findIndex_from p xs 0"

section \<open>The room procedures \<open>start\<close> and \<open>advanceSpeaker\<close>\<close>

datatype trpc_code = NOT_FOUND | FORBIDDEN | BAD_REQUEST

text \<open>
  A procedure either throws a \<open>TRPCError\<close> with a code and a message, or would die of a
  \<open>TypeError\<close> on reading a property of \<open>undefined\<close>.
\<close>

datatype failure = TRPCError trpc_code string | TypeError

record start_output =
  success :: bool

record advance_output =
  completed :: bool
  nextSpeakerIndex :: "int option"

text \<open>The filter predicate of the active speaking order.\<close>

definition speaker_present :: "role set \<Rightarrow> slot \<Rightarrow> bool" where
  "speaker_present participantRoles speaker =
     (if role speaker = opposition_reply then leader_of_opposition \<in> participantRoles
      else if role speaker = government_reply then prime_minister \<in> participantRoles
      else role speaker \<in> participantRoles)"

definition activeSpeakingOrder :: "slot list \<Rightarrow> role set \<Rightarrow> slot list" where
  "activeSpeakingOrder fullSpeakingOrder participantRoles =
     filter (speaker_present participantRoles) fullSpeakingOrder"

text \<open>
  The \<open>for\<close> loop of \<open>start\<close>: \<open>i\<close> is the loop index, the list is the rest of the format
  from \<open>i\<close> on, and \<open>firstSpeakerIndex\<close> is the variable the loop may assign before \<open>break\<close>.
\<close>

fun firstSpeakerLoop :: "slot list \<Rightarrow> role set \<Rightarrow> int \<Rightarrow> int \<Rightarrow> int" where
  "firstSpeakerLoop [] participantRoles i firstSpeakerIndex = firstSpeakerIndex"
| "firstSpeakerLoop (speaker # rest) participantRoles i firstSpeakerIndex =
     (if role speaker = opposition_reply then
        (if leader_of_opposition \<in> participantRoles then i
         else firstSpeakerLoop rest participantRoles (i + 1) firstSpeakerIndex)
      else if role speaker = government_reply then
        (if prime_minister \<in> participantRoles then i
         else firstSpeakerLoop rest participantRoles (i + 1) firstSpeakerIndex)
      else if role speaker \<in> participantRoles then i
      else firstSpeakerLoop rest participantRoles (i + 1) firstSpeakerIndex)"

text \<open>\<open>!room.motionId\<close>: true for \<open>null\<close> and for \<open>0\<close>.\<close>

definition no_motion :: "int option \<Rightarrow> bool" where
  "no_motion m = (case m of None \<Rightarrow> True | Some v \<Rightarrow> v = 0)"

text \<open>
  A procedure returns its outcome (\<open>Inl\<close> what it throws, \<open>Inr\<close> what it returns) and the
  store it leaves; \<open>now\<close> is the value of \<open>new Date()\<close>. Both procedures write to the store
  only in their last statement, so a throw leaves the store as it was.
\<close>

definition start ::
  "slot list \<Rightarrow> store \<Rightarrow> timestamp \<Rightarrow> int \<Rightarrow> int \<Rightarrow> (failure + start_output) \<times> store" where
  "start fullSpeakingOrder db now ctx_user_id input_roomId =
     (case getDebateRoomById db input_roomId of
        None \<Rightarrow> (Inl (TRPCError NOT_FOUND ''Room not found''), db)
      | Some room \<Rightarrow>
          if creatorId room \<noteq> ctx_user_id then
            (Inl (TRPCError FORBIDDEN ''Only the room creator can start the debate''), db)
          else if no_motion (motionId room) then
            (Inl (TRPCError BAD_REQUEST ''A motion must be set before starting''), db)
          else
            let participants = getRoomParticipants db (room_id room) in
            if length participants < 1 then
              (Inl (TRPCError BAD_REQUEST
                 ''At least one participant must join before starting''), db)
            else if \<not> list_all (\<lambda>p. isReady p = Some True) participants then
              (Inl (TRPCError BAD_REQUEST ''All participants must be ready''), db)
            else
              let participantRoles = set (map speakerRole participants);
                  firstSpeakerIndex = firstSpeakerLoop fullSpeakingOrder participantRoles 0 0
              in (Inr \<lparr>success = True\<rparr>,
                  updateDebateRoom db input_roomId
                    (\<lambda>r. r\<lparr>status := in_progress, currentPhase := debate,
                           currentSpeakerIndex := Some firstSpeakerIndex,
                           startedAt := Some now\<rparr>)))"

text \<open>\<open>room.currentSpeakerIndex || 0\<close>.\<close>

definition or_zero :: "int option \<Rightarrow> int" where
  "or_zero v = (case v of None \<Rightarrow> 0 | Some n \<Rightarrow> n)"

definition advanceSpeaker ::
  "slot list \<Rightarrow> store \<Rightarrow> timestamp \<Rightarrow> int \<Rightarrow> (failure + advance_output) \<times> store" where
  "advanceSpeaker fullSpeakingOrder db now input_roomId =
     (case getDebateRoomById db input_roomId of
        None \<Rightarrow> (Inl (TRPCError NOT_FOUND ''Room not found''), db)
      | Some room \<Rightarrow>
          let participants = getRoomParticipants db (room_id room);
              participantRoles = set (map speakerRole participants);
              active = activeSpeakingOrder fullSpeakingOrder participantRoles;
              currentSpeaker = js_index fullSpeakingOrder (or_zero (currentSpeakerIndex room));
              currentActiveIndex =
                findIndex (\<lambda>s. Some (role s) = map_option role currentSpeaker) active;
              nextActiveIndex = currentActiveIndex + 1
          in if nextActiveIndex \<ge> int (length active) then
               (Inr \<lparr>completed = True, nextSpeakerIndex = None\<rparr>,
                updateDebateRoom db input_roomId
                  (\<lambda>r. r\<lparr>currentPhase := feedback, status := completed_status,
                         endedAt := Some now\<rparr>))
             else
               (case js_index active nextActiveIndex of
                  None \<Rightarrow> (Inl TypeError, db)
                | Some nextSpeaker \<Rightarrow>
                    let nextFullIndex =
                          findIndex (\<lambda>s. role s = role nextSpeaker) fullSpeakingOrder
                    in (Inr \<lparr>completed = False, nextSpeakerIndex = Some nextFullIndex\<rparr>,
                        updateDebateRoom db input_roomId
                          (\<lambda>r. r\<lparr>currentSpeakerIndex := Some nextFullIndex\<rparr>))))"

section \<open>Specification-side notions\<close>

text \<open>
  The anchor role of a slot, in the words of the specification: a reply slot is held by the
  leader of its team, every other slot by the role itself.
\<close>

fun anchor_role :: "role \<Rightarrow> role" where
  "anchor_role opposition_reply = leader_of_opposition"
| "anchor_role government_reply = prime_minister"
| "anchor_role r = r"

section \<open>Sequences of calls\<close>

text \<open>
  The results of successive \<open>advanceSpeaker\<close> calls on one room, each on the store the
  previous call left, at the given times.
\<close>

fun run_advances ::
  "slot list \<Rightarrow> store \<Rightarrow> int \<Rightarrow> timestamp list \<Rightarrow> (failure + advance_output) list" where
  "run_advances fso db rid [] = []"
| "run_advances fso db rid (t # ts) =
     fst (advanceSpeaker fso db t rid)
       # run_advances fso (snd (advanceSpeaker fso db t rid)) rid ts"

text \<open>A call of one of the two procedures on a room: when, and for \<open>start\<close> by whom.\<close>

datatype room_op = Start timestamp int | AdvanceSpeaker timestamp

fun apply_op :: "slot list \<Rightarrow> store \<Rightarrow> int \<Rightarrow> room_op \<Rightarrow> store" where
  "apply_op fso db rid (Start now caller) = snd (start fso db now caller rid)"
| "apply_op fso db rid (AdvanceSpeaker now) = snd (advanceSpeaker fso db now rid)"

text \<open>The phase of the room before the first call and after each call.\<close>

fun phase_trace :: "slot list \<Rightarrow> store \<Rightarrow> int \<Rightarrow> room_op list \<Rightarrow> phase option list" where
  "phase_trace fso db rid [] = [map_option currentPhase (getDebateRoomById db rid)]"
| "phase_trace fso db rid (c # cs) =
     map_option currentPhase (getDebateRoomById db rid)
       # phase_trace fso (apply_op fso db rid c) rid cs"

text \<open>Every \<open>start\<close> of the sequence is issued while the room's status is \<open>waiting\<close>.\<close>

fun starts_while_waiting :: "slot list \<Rightarrow> store \<Rightarrow> int \<Rightarrow> room_op list \<Rightarrow> bool" where
  "starts_while_waiting fso db rid [] = True"
| "starts_while_waiting fso db rid (c # cs) =
     ((case c of
         Start now caller \<Rightarrow> map_option status (getDebateRoomById db rid) = Some waiting
       | AdvanceSpeaker now \<Rightarrow> True)
      \<and> starts_while_waiting fso (apply_op fso db rid c) rid cs)"

text \<open>The order of the phases: \<open>setup\<close>, \<open>debate\<close>, \<open>feedback\<close>, \<open>completed\<close>.\<close>

fun phase_rank :: "phase option \<Rightarrow> nat" where
  "phase_rank None = 0"
| "phase_rank (Some setup_phase) = 0"
| "phase_rank (Some debate) = 1"
| "phase_rank (Some feedback) = 2"
| "phase_rank (Some completed_phase) = 3"

section \<open>Example stores\<close>

definition example_participant :: "int \<Rightarrow> team \<Rightarrow> role \<Rightarrow> bool \<Rightarrow> debateParticipant" where
  "example_participant k t r ready =
     \<lparr>participant_id = k, roomId = 1, userId = 10 + k, participant_team = t,
      speakerRole = r, isReady = Some ready\<rparr>"

text \<open>Room 1, created by user 10, with motion 5, as \<open>create\<close> leaves it.\<close>

definition example_room :: debateRoom where
  "example_room =
     \<lparr>room_id = 1, creatorId = 10, motionId = Some 5, status = waiting,
      currentSpeakerIndex = Some 0, currentPhase = setup_phase,
      startedAt = None, endedAt = None\<rparr>"

text \<open>Only the prime minister and the leader of the opposition joined; both are ready.\<close>

definition example_two_speakers :: store where
  "example_two_speakers =
     \<lparr>getDb = True, debateRooms = [example_room],
      debateParticipants =
        [example_participant 0 government prime_minister True,
         example_participant 1 opposition leader_of_opposition True]\<rparr>"

text \<open>The same room, the leader of the opposition not ready.\<close>

definition example_not_ready :: store where
  "example_not_ready =
     \<lparr>getDb = True, debateRooms = [example_room],
      debateParticipants =
        [example_participant 0 government prime_minister True,
         example_participant 1 opposition leader_of_opposition False]\<rparr>"

text \<open>
  Prime minister and government whip absent; deputy prime minister and the three opposition
  speakers present and ready.
\<close>

definition example_partial_roster :: store where
  "example_partial_roster =
     \<lparr>getDb = True, debateRooms = [example_room],
      debateParticipants =
        [example_participant 0 government deputy_prime_minister True,
         example_participant 1 opposition leader_of_opposition True,
         example_participant 2 opposition deputy_leader_of_opposition True,
         example_participant 3 opposition opposition_whip True]\<rparr>"

text \<open>The two-speaker room after its debate: started at 100, completed at 500.\<close>

definition example_completed :: store where
  "example_completed =
     \<lparr>getDb = True,
      debateRooms =
        [example_room\<lparr>status := completed_status, currentPhase := feedback,
           currentSpeakerIndex := Some 7, startedAt := Some 100, endedAt := Some 500\<rparr>],
      debateParticipants =
        [example_participant 0 government prime_minister True,
         example_participant 1 opposition leader_of_opposition True]\<rparr>"

text \<open>The two-speaker room in progress, the last slot (\<open>government_reply\<close>) current.\<close>

definition example_last_slot :: store where
  "example_last_slot =
     \<lparr>getDb = True,
      debateRooms =
        [example_room\<lparr>status := in_progress, currentPhase := debate,
           currentSpeakerIndex := Some 7, startedAt := Some 100\<rparr>],
      debateParticipants =
        [example_participant 0 government prime_minister True,
         example_participant 1 opposition leader_of_opposition True]\<rparr>"

text \<open>The two-speaker room in progress with a persisted index outside the format.\<close>

definition example_stale_index :: store where
  "example_stale_index =
     \<lparr>getDb = True,
      debateRooms =
        [example_room\<lparr>status := in_progress, currentPhase := debate,
           currentSpeakerIndex := Some 42, startedAt := Some 100\<rparr>],
      debateParticipants =
        [example_participant 0 government prime_minister True,
         example_participant 1 opposition leader_of_opposition True]\<rparr>"

text \<open>A room in progress whose participants have all left.\<close>

definition example_empty_roster :: store where
  "example_empty_roster =
     \<lparr>getDb = True,
      debateRooms =
        [example_room\<lparr>status := in_progress, currentPhase := debate,
           currentSpeakerIndex := None, startedAt := Some 100\<rparr>],
      debateParticipants = []\<rparr>"

section \<open>Facts about the array primitives\<close>

lemma subseq_distinct_unique:
  "subseq ys xs \<Longrightarrow> distinct xs \<Longrightarrow> ys = filter (\<lambda>x. x \<in> set ys) xs"
proof (induction rule: list_emb.induct)
  case (list_emb_Nil ys)
  then show ?case by simp
next
  case (list_emb_Cons xs ys y)
  then have "y \<notin> set xs" by (auto dest: list_emb_set)
  with list_emb_Cons show ?case by simp
next
  case (list_emb_Cons2 x y xs ys)
  then have "x = y" "y \<notin> set ys" by auto
  then have "filter (\<lambda>z. z \<in> set (x # xs)) ys = filter (\<lambda>z. z \<in> set xs) ys"
    by (intro filter_cong) auto
  with list_emb_Cons2 show ?case by simp
qed

lemma findIndex_from_none:
  "\<forall>x \<in> set xs. \<not> p x \<Longrightarrow> findIndex_from p xs i = - 1"
  by (induction xs arbitrary: i) auto

lemma findIndex_from_ge: "i \<ge> 0 \<Longrightarrow> - 1 \<le> findIndex_from p xs i"
  by (induction xs arbitrary: i) auto

lemma findIndex_from_nth:
  "distinct (map f ys) \<Longrightarrow> k < length ys \<Longrightarrow>
   findIndex_from (\<lambda>s. f s = f (ys ! k)) ys i = i + int k"
proof (induction ys arbitrary: k i)
  case Nil
  then show ?case by simp
next
  case (Cons y ys)
  show ?case
  proof (cases k)
    case 0
    then show ?thesis by simp
  next
    case (Suc m)
    with Cons.prems have m: "m < length ys" and d: "distinct (map f ys)" by simp_all
    from Cons.prems Suc m have "f y \<noteq> f (ys ! m)" by auto
    with Cons.IH[OF d m, of "i + 1"] Suc show ?thesis by simp
  qed
qed

lemma findIndex_from_hd_filter:
  "distinct (map f xs) \<Longrightarrow> filter p xs \<noteq> [] \<Longrightarrow>
   findIndex_from (\<lambda>s. f s = f (hd (filter p xs))) xs i = findIndex_from p xs i"
proof (induction xs arbitrary: i)
  case Nil
  then show ?case by simp
next
  case (Cons x xs)
  show ?case
  proof (cases "p x")
    case True
    then show ?thesis by simp
  next
    case False
    with Cons.prems have ne: "filter p xs \<noteq> []" and d: "distinct (map f xs)" by simp_all
    from ne have "hd (filter p xs) \<in> set (filter p xs)" by (rule hd_in_set)
    then have "hd (filter p xs) \<in> set xs" by simp
    with Cons.prems(1) have "f x \<noteq> f (hd (filter p xs))" by auto
    with Cons.IH[OF d ne, of "i + 1"] False show ?thesis by simp
  qed
qed

lemma firstSpeakerLoop_findIndex:
  "firstSpeakerLoop xs R i acc =
     (if filter (speaker_present R) xs = [] then acc
      else findIndex_from (speaker_present R) xs i)"
  by (induction xs arbitrary: i) (auto simp: speaker_present_def)

lemma SPEAKING_ORDER_roles_distinct: "distinct (map role SPEAKING_ORDER)"
  by (simp add: SPEAKING_ORDER_def)

lemma SPEAKING_ORDER_distinct: "distinct SPEAKING_ORDER"
  using SPEAKING_ORDER_roles_distinct by (simp add: distinct_map)

section \<open>Facts about the store and the two procedures\<close>

lemmas example_defs = example_two_speakers_def example_not_ready_def example_partial_roster_def
  example_completed_def example_last_slot_def example_stale_index_def example_empty_roster_def
  example_room_def
  example_participant_def

lemmas store_defs = getDebateRoomById_def getRoomParticipants_def updateDebateRoom_def

lemma getDebateRoomById_SomeD:
  "getDebateRoomById db i = Some r \<Longrightarrow> getDb db \<and> room_id r = i \<and> r \<in> set (debateRooms db)"
  by (auto simp: getDebateRoomById_def find_Some_iff split: if_splits)

lemma find_map_update:
  "\<forall>r. key (f r) = key r \<Longrightarrow>
   find (\<lambda>r. key r = j) (map (\<lambda>r. if key r = i then f r else r) rs) =
     (if i = j then map_option f (find (\<lambda>r. key r = j) rs) else find (\<lambda>r. key r = j) rs)"
  by (induction rs) auto

lemma getDebateRoomById_update:
  assumes "\<forall>r. room_id (f r) = room_id r"
  shows "getDebateRoomById (updateDebateRoom db i f) j =
     (if i = j then map_option f (getDebateRoomById db j) else getDebateRoomById db j)"
  by (simp add: getDebateRoomById_def updateDebateRoom_def find_map_update[OF assms])

lemma getRoomParticipants_update [simp]:
  "getRoomParticipants (updateDebateRoom db i f) j = getRoomParticipants db j"
  by (simp add: getRoomParticipants_def updateDebateRoom_def)

lemma activeSpeakingOrder_nonempty:
  "r \<in> S \<Longrightarrow> r \<in> speakerRole_enum \<Longrightarrow> activeSpeakingOrder SPEAKING_ORDER S \<noteq> []"
  by (auto simp: activeSpeakingOrder_def filter_empty_conv speakerRole_enum_def
      SPEAKING_ORDER_def speaker_present_def)

lemma start_ok:
  assumes room: "getDebateRoomById db rid = Some room"
    and creator: "creatorId room = caller"
    and motion: "motionId room = Some m" "m \<noteq> 0"
    and joined: "getRoomParticipants db rid \<noteq> []"
    and ready: "\<forall>p \<in> set (getRoomParticipants db rid). isReady p = Some True"
  shows "start fso db now caller rid =
     (Inr \<lparr>success = True\<rparr>,
      updateDebateRoom db rid
        (\<lambda>r. r\<lparr>status := in_progress, currentPhase := debate,
           currentSpeakerIndex := Some (firstSpeakerLoop fso
              (set (map speakerRole (getRoomParticipants db rid))) 0 0),
           startedAt := Some now\<rparr>))"
proof -
  from room have rid: "room_id room = rid" by (simp add: getDebateRoomById_SomeD)
  from joined have len: "\<not> length (getRoomParticipants db rid) < 1"
    by (cases "getRoomParticipants db rid") simp_all
  from ready have all: "list_all (\<lambda>p. isReady p = Some True) (getRoomParticipants db rid)"
    by (simp add: list_all_iff)
  show ?thesis
    using room creator motion len all rid
    by (simp add: start_def no_motion_def Let_def)
qed


lemma findIndex_ge: "- 1 \<le> findIndex p xs"
  by (simp add: findIndex_def findIndex_from_ge)

lemma advanceSpeaker_existing:
  fixes fso :: "slot list" and db :: store and rid :: int and room :: debateRoom
  assumes room: "getDebateRoomById db rid = Some room"
  defines "active \<equiv> activeSpeakingOrder fso (set (map speakerRole (getRoomParticipants db rid)))"
  defines "cai \<equiv> findIndex (\<lambda>s. Some (role s) =
      map_option role (js_index fso (or_zero (currentSpeakerIndex room)))) active"
  defines "nfi \<equiv> findIndex (\<lambda>s. role s = role (active ! nat (cai + 1))) fso"
  shows "advanceSpeaker fso db now rid =
    (if cai + 1 \<ge> int (length active) then
       (Inr \<lparr>completed = True, nextSpeakerIndex = None\<rparr>,
        updateDebateRoom db rid
          (\<lambda>r. r\<lparr>currentPhase := feedback, status := completed_status, endedAt := Some now\<rparr>))
     else
       (Inr \<lparr>completed = False, nextSpeakerIndex = Some nfi\<rparr>,
        updateDebateRoom db rid (\<lambda>r. r\<lparr>currentSpeakerIndex := Some nfi\<rparr>)))"
proof -
  from room have rid: "room_id room = rid" by (simp add: getDebateRoomById_SomeD)
  have "- 1 \<le> cai" unfolding cai_def by (rule findIndex_ge)
  then have ge: "0 \<le> cai + 1" by simp
  show ?thesis
    using room rid ge
    by (simp add: advanceSpeaker_def Let_def js_index_def active_def cai_def nfi_def)
qed

lemma next_active_index:
  fixes xs :: "'a list" and f :: "'a \<Rightarrow> 'b" and p :: "'a \<Rightarrow> bool" and i :: nat
  assumes d: "distinct (map f xs)" and i: "i < length xs" and p: "p (xs ! i)"
    and more: "findIndex (\<lambda>s. f s = f (xs ! i)) (filter p xs) + 1 < int (length (filter p xs))"
  defines "nx \<equiv> filter p xs ! nat (findIndex (\<lambda>s. f s = f (xs ! i)) (filter p xs) + 1)"
  shows "\<exists>j. findIndex (\<lambda>s. f s = f nx) xs = int j \<and> i < j \<and> j < length xs \<and> xs ! j = nx \<and> p nx"
proof -
  let ?k = "length (filter p (take i xs))"
  let ?ys = "filter p xs"
  let ?rest = "filter p (drop (Suc i) xs)"
  have split: "?ys = filter p (take i xs) @ xs ! i # ?rest"
    using i p by (subst id_take_nth_drop[OF i]) simp
  have dy: "distinct (map f ?ys)" using d by (rule distinct_map_filter)
  have k: "?k < length ?ys" by (subst split) simp
  have yk: "?ys ! ?k = xs ! i" by (subst split) (simp add: nth_append)
  have cur: "findIndex (\<lambda>s. f s = f (xs ! i)) ?ys = int ?k"
    using findIndex_from_nth[OF dy k, of 0] by (simp add: findIndex_def yk)
  from more cur have ne: "?rest \<noteq> []" by (subst (asm) split) auto
  have nx: "nx = hd ?rest"
    unfolding nx_def cur using ne
    by (subst split) (simp add: nth_append hd_conv_nth nat_add_distrib)
  from ne have "hd ?rest \<in> set ?rest" by (rule hd_in_set)
  with nx have pn: "p nx" and "nx \<in> set (drop (Suc i) xs)" by simp_all
  then obtain m where m: "m < length (drop (Suc i) xs)" "drop (Suc i) xs ! m = nx"
    by (auto simp: in_set_conv_nth)
  let ?j = "Suc i + m"
  from m have j: "?j < length xs" and xj: "xs ! ?j = nx" by simp_all
  have "findIndex (\<lambda>s. f s = f (xs ! ?j)) xs = int ?j"
    using findIndex_from_nth[OF d j, of 0] by (simp add: findIndex_def)
  then have "findIndex (\<lambda>s. f s = f nx) xs = int ?j"
    by (simp only: xj)
  with j xj pn show ?thesis by (intro exI[of _ ?j]) simp
qed

section \<open>Active-order derivation\<close>

text \<open>
  Claim C1. For every set \<open>S\<close> of roles (in particular every non-empty set of the six
  primary roles), the active speaking order derived from the eight-slot format and \<open>S\<close> is a
  subsequence of the format in the format's order; a slot of the format occurs in it iff its
  anchor role is in \<open>S\<close> (a regular slot iff its own role is in \<open>S\<close>, \<open>opposition_reply\<close> iff
  \<open>leader_of_opposition\<close> is, \<open>government_reply\<close> iff \<open>prime_minister\<close> is); and it is the
  only subsequence of the format with these members. The derivation is a function of the
  format and \<open>S\<close> alone: it takes no store and returns none.
\<close>

theorem activeSpeakingOrder_exact_subsequence:
  "subseq (activeSpeakingOrder SPEAKING_ORDER S) SPEAKING_ORDER
   \<and> (\<forall>s \<in> set SPEAKING_ORDER.
         s \<in> set (activeSpeakingOrder SPEAKING_ORDER S) \<longleftrightarrow> anchor_role (role s) \<in> S)
   \<and> (\<forall>ys. subseq ys SPEAKING_ORDER
            \<and> (\<forall>s \<in> set SPEAKING_ORDER. s \<in> set ys \<longleftrightarrow> anchor_role (role s) \<in> S)
          \<longrightarrow> ys = activeSpeakingOrder SPEAKING_ORDER S)"
proof (intro conjI allI impI)
  show "subseq (activeSpeakingOrder SPEAKING_ORDER S) SPEAKING_ORDER"
    by (simp add: activeSpeakingOrder_def)
next
  show mem: "\<forall>s \<in> set SPEAKING_ORDER.
      s \<in> set (activeSpeakingOrder SPEAKING_ORDER S) \<longleftrightarrow> anchor_role (role s) \<in> S"
    by (simp add: activeSpeakingOrder_def SPEAKING_ORDER_def speaker_present_def)
  fix ys
  assume a: "subseq ys SPEAKING_ORDER
    \<and> (\<forall>s \<in> set SPEAKING_ORDER. s \<in> set ys \<longleftrightarrow> anchor_role (role s) \<in> S)"
  then have "ys = filter (\<lambda>x. x \<in> set ys) SPEAKING_ORDER"
    using SPEAKING_ORDER_distinct by (intro subseq_distinct_unique) simp_all
  also have "\<dots> = filter (\<lambda>x. x \<in> set (activeSpeakingOrder SPEAKING_ORDER S)) SPEAKING_ORDER"
    using a mem by (intro filter_cong) auto
  also have "\<dots> = activeSpeakingOrder SPEAKING_ORDER S"
    using SPEAKING_ORDER_distinct
    by (intro subseq_distinct_unique[symmetric]) (simp_all add: activeSpeakingOrder_def)
  finally show "ys = activeSpeakingOrder SPEAKING_ORDER S" .
qed

theorem activeSpeakingOrder_exact_subsequence_witness:
  "activeSpeakingOrder SPEAKING_ORDER {deputy_prime_minister, leader_of_opposition} =
     [ \<lparr>role = leader_of_opposition, team = opposition, label = ''Leader of Opposition'', time = 420\<rparr>,
       \<lparr>role = deputy_prime_minister, team = government, label = ''Deputy Prime Minister'', time = 420\<rparr>,
       \<lparr>role = opposition_reply, team = opposition, label = ''Opposition Reply'', time = 240\<rparr> ]"
proof -
  let ?S = "{deputy_prime_minister, leader_of_opposition}"
  let ?ys = "[ \<lparr>role = leader_of_opposition, team = opposition, label = ''Leader of Opposition'', time = 420\<rparr>,
       \<lparr>role = deputy_prime_minister, team = government, label = ''Deputy Prime Minister'', time = 420\<rparr>,
       \<lparr>role = opposition_reply, team = opposition, label = ''Opposition Reply'', time = 240\<rparr> ]"
  have sub: "subseq ?ys SPEAKING_ORDER"
    by (simp add: SPEAKING_ORDER_def)
  have mem: "\<forall>s \<in> set SPEAKING_ORDER. s \<in> set ?ys \<longleftrightarrow> anchor_role (role s) \<in> ?S"
    by (simp add: SPEAKING_ORDER_def)
  from activeSpeakingOrder_exact_subsequence[of ?S] sub mem
  have "?ys = activeSpeakingOrder SPEAKING_ORDER ?S" by blast
  then show ?thesis by simp
qed

section \<open>Starting a debate\<close>

text \<open>
  Claim C2. When the preconditions of \<open>start\<close> hold (the room exists, the caller is its
  creator, a motion is attached, at least one participant joined, every participant is
  ready; the participants' roles are values of the schema's \<open>speakerRole\<close> enum), the active
  order of the roster is not empty, \<open>start\<close> succeeds, and the room it leaves has
  \<open>currentSpeakerIndex\<close> = the index in the full format of the first slot of the active
  order, \<open>status = in_progress\<close>, \<open>currentPhase = debate\<close> and \<open>startedAt\<close> = the time of the
  call, every other column as before.
\<close>

theorem start_sets_first_active_slot:
  assumes room: "getDebateRoomById db rid = Some room"
    and creator: "creatorId room = caller"
    and motion: "motionId room = Some m" "m \<noteq> 0"
    and joined: "getRoomParticipants db rid \<noteq> []"
    and ready: "\<forall>p \<in> set (getRoomParticipants db rid). isReady p = Some True"
    and enum: "\<forall>p \<in> set (getRoomParticipants db rid). speakerRole p \<in> speakerRole_enum"
  shows "activeSpeakingOrder SPEAKING_ORDER (set (map speakerRole (getRoomParticipants db rid))) \<noteq> []
    \<and> fst (start SPEAKING_ORDER db now caller rid) = Inr \<lparr>success = True\<rparr>
    \<and> getDebateRoomById (snd (start SPEAKING_ORDER db now caller rid)) rid =
        Some (room\<lparr>status := in_progress, currentPhase := debate,
          currentSpeakerIndex := Some (findIndex (\<lambda>s. role s =
             role (hd (activeSpeakingOrder SPEAKING_ORDER
                     (set (map speakerRole (getRoomParticipants db rid)))))) SPEAKING_ORDER),
          startedAt := Some now\<rparr>)"
proof -
  let ?R = "set (map speakerRole (getRoomParticipants db rid))"
  from joined obtain p where p: "p \<in> set (getRoomParticipants db rid)"
    by (cases "getRoomParticipants db rid") auto
  with enum have "speakerRole p \<in> ?R" "speakerRole p \<in> speakerRole_enum" by simp_all
  then have ne: "activeSpeakingOrder SPEAKING_ORDER ?R \<noteq> []"
    by (rule activeSpeakingOrder_nonempty)
  then have ne': "filter (speaker_present ?R) SPEAKING_ORDER \<noteq> []"
    by (simp add: activeSpeakingOrder_def)
  have idx: "firstSpeakerLoop SPEAKING_ORDER ?R 0 0 =
      findIndex (\<lambda>s. role s = role (hd (activeSpeakingOrder SPEAKING_ORDER ?R))) SPEAKING_ORDER"
    using ne' findIndex_from_hd_filter[OF SPEAKING_ORDER_roles_distinct ne', of 0]
    by (simp add: firstSpeakerLoop_findIndex findIndex_def activeSpeakingOrder_def)
  have st: "start SPEAKING_ORDER db now caller rid =
     (Inr \<lparr>success = True\<rparr>,
      updateDebateRoom db rid
        (\<lambda>r. r\<lparr>status := in_progress, currentPhase := debate,
           currentSpeakerIndex := Some (firstSpeakerLoop SPEAKING_ORDER ?R 0 0),
           startedAt := Some now\<rparr>))"
    using room creator motion joined ready by (rule start_ok)
  show ?thesis
    unfolding st idx using ne room by (simp add: getDebateRoomById_update)
qed

theorem start_sets_first_active_slot_witness:
  "fst (start SPEAKING_ORDER example_partial_roster 100 10 1) = Inr \<lparr>success = True\<rparr>
   \<and> getDebateRoomById (snd (start SPEAKING_ORDER example_partial_roster 100 10 1)) 1 =
       Some (example_room\<lparr>status := in_progress, currentPhase := debate,
          currentSpeakerIndex := Some 1, startedAt := Some 100\<rparr>)"
proof -
  have room: "getDebateRoomById example_partial_roster 1 = Some example_room"
    by (simp add: store_defs example_defs)
  have ps: "getRoomParticipants example_partial_roster 1 =
        [example_participant 0 government deputy_prime_minister True,
         example_participant 1 opposition leader_of_opposition True,
         example_participant 2 opposition deputy_leader_of_opposition True,
         example_participant 3 opposition opposition_whip True]"
    by (simp add: store_defs example_defs)
  have "findIndex (\<lambda>s. role s = role (hd (activeSpeakingOrder SPEAKING_ORDER
                     (set (map speakerRole (getRoomParticipants example_partial_roster 1)))))) SPEAKING_ORDER = 1"
    by (simp add: ps example_participant_def activeSpeakingOrder_def SPEAKING_ORDER_def speaker_present_def findIndex_def)
  with start_sets_first_active_slot[of example_partial_roster 1 example_room 10 5 100, OF room]
  show ?thesis
    by (simp add: ps) (simp add: example_defs speakerRole_enum_def)
qed


text \<open>
  Claim C5, as stated, fails: with prime minister and government whip absent and the deputy
  prime minister and the three opposition speakers present, the first present slot of the
  format is the leader of the opposition (index 1), who precedes the deputy prime minister
  (index 2). \<open>start\<close> persists 1, not 2.
\<close>

theorem start_partial_roster_counterexample:
  "set (map speakerRole (getRoomParticipants example_partial_roster 1)) =
     {deputy_prime_minister, leader_of_opposition, deputy_leader_of_opposition, opposition_whip}
   \<and> fst (start SPEAKING_ORDER example_partial_roster 100 10 1) = Inr \<lparr>success = True\<rparr>
   \<and> map_option currentSpeakerIndex
        (getDebateRoomById (snd (start SPEAKING_ORDER example_partial_roster 100 10 1)) 1)
       = Some (Some 1)
   \<and> map_option currentSpeakerIndex
        (getDebateRoomById (snd (start SPEAKING_ORDER example_partial_roster 100 10 1)) 1)
       \<noteq> Some (Some 2)"
  by (simp add: start_def store_defs example_defs no_motion_def SPEAKING_ORDER_def)

text \<open>
  Claim C5, amended. Starting a room whose roster is exactly deputy prime minister, leader
  of the opposition, deputy leader of the opposition and opposition whip (preconditions of
  \<open>start\<close> holding) sets \<open>currentSpeakerIndex\<close> to 1, the index of \<open>leader_of_opposition\<close>
  in the full format.
\<close>

theorem start_partial_roster_first_speaker:
  assumes room: "getDebateRoomById db rid = Some room"
    and creator: "creatorId room = caller"
    and motion: "motionId room = Some m" "m \<noteq> 0"
    and ready: "\<forall>p \<in> set (getRoomParticipants db rid). isReady p = Some True"
    and roster: "set (map speakerRole (getRoomParticipants db rid)) =
      {deputy_prime_minister, leader_of_opposition, deputy_leader_of_opposition, opposition_whip}"
  shows "fst (start SPEAKING_ORDER db now caller rid) = Inr \<lparr>success = True\<rparr>
    \<and> map_option currentSpeakerIndex
         (getDebateRoomById (snd (start SPEAKING_ORDER db now caller rid)) rid) = Some (Some 1)"
proof -
  from roster have joined: "getRoomParticipants db rid \<noteq> []" by auto
  have loop: "firstSpeakerLoop SPEAKING_ORDER
      {deputy_prime_minister, leader_of_opposition, deputy_leader_of_opposition, opposition_whip}
      0 0 = 1"
    by (simp add: SPEAKING_ORDER_def)
  show ?thesis
    unfolding start_ok[OF room creator motion joined ready] roster loop
    using room by (simp add: getDebateRoomById_update)
qed

theorem start_partial_roster_first_speaker_witness:
  "fst (start SPEAKING_ORDER example_partial_roster 250 10 1) = Inr \<lparr>success = True\<rparr>
   \<and> map_option currentSpeakerIndex
        (getDebateRoomById (snd (start SPEAKING_ORDER example_partial_roster 250 10 1)) 1)
       = Some (Some 1)"
proof -
  have room: "getDebateRoomById example_partial_roster 1 = Some example_room"
    by (simp add: store_defs example_defs)
  have creator: "creatorId example_room = 10" and motion: "motionId example_room = Some 5"
    by (simp_all add: example_room_def)
  have ready: "\<forall>p \<in> set (getRoomParticipants example_partial_roster 1). isReady p = Some True"
    by (simp add: store_defs example_defs)
  have roster: "set (map speakerRole (getRoomParticipants example_partial_roster 1)) =
      {deputy_prime_minister, leader_of_opposition, deputy_leader_of_opposition, opposition_whip}"
    by (simp add: store_defs example_defs)
  show ?thesis
    using start_partial_roster_first_speaker[OF room creator motion _ ready roster, of 250]
    by simp
qed

text \<open>
  Claim C8, as stated, fails for a caller who is not the creator of the room: the creator
  check comes first, and \<open>start\<close> throws \<open>FORBIDDEN\<close>, whatever the readiness of the
  participants.
\<close>

theorem start_not_ready_counterexample:
  "getDebateRoomById example_not_ready 1 = Some example_room
   \<and> motionId example_room = Some 5
   \<and> map isReady (getRoomParticipants example_not_ready 1) = [Some True, Some False]
   \<and> start SPEAKING_ORDER example_not_ready 100 11 1 =
       (Inl (TRPCError FORBIDDEN ''Only the room creator can start the debate''),
        example_not_ready)"
  by (simp add: start_def store_defs example_defs)

text \<open>
  Claim C8, amended. For every existing room with a motion, called by the room's creator:
  if some joined participant is not ready (\<open>isReady\<close> false or null), then \<open>start\<close> throws
  \<open>BAD_REQUEST\<close> with the message \<open>All participants must be ready\<close>, whatever the other
  participants' readiness, and the store is unchanged.
\<close>

theorem start_not_ready_rejected:
  assumes room: "getDebateRoomById db rid = Some room"
    and creator: "creatorId room = caller"
    and motion: "motionId room = Some m" "m \<noteq> 0"
    and joined: "p \<in> set (getRoomParticipants db rid)"
    and unready: "isReady p \<noteq> Some True"
  shows "start fso db now caller rid =
    (Inl (TRPCError BAD_REQUEST ''All participants must be ready''), db)"
proof -
  from room have rid: "room_id room = rid" by (simp add: getDebateRoomById_SomeD)
  from joined have len: "\<not> length (getRoomParticipants db rid) < 1"
    by (cases "getRoomParticipants db rid") simp_all
  from joined unready
  have "\<not> list_all (\<lambda>p. isReady p = Some True) (getRoomParticipants db rid)"
    by (auto simp: list_all_iff)
  with room creator motion rid len show ?thesis
    by (simp add: start_def no_motion_def Let_def)
qed

theorem start_not_ready_rejected_witness:
  "start SPEAKING_ORDER example_not_ready 100 10 1 =
    (Inl (TRPCError BAD_REQUEST ''All participants must be ready''), example_not_ready)"
proof -
  have room: "getDebateRoomById example_not_ready 1 = Some example_room"
    by (simp add: store_defs example_defs)
  have creator: "creatorId example_room = 10" and motion: "motionId example_room = Some 5"
    by (simp_all add: example_room_def)
  have joined: "example_participant 1 opposition leader_of_opposition False
      \<in> set (getRoomParticipants example_not_ready 1)"
    by (simp add: store_defs example_defs)
  have unready: "isReady (example_participant 1 opposition leader_of_opposition False) \<noteq> Some True"
    by (simp add: example_participant_def)
  show ?thesis
    using start_not_ready_rejected[OF room creator motion _ joined unready] by simp
qed

section \<open>Advancing the speaker\<close>

lemma distinct_roles_active:
  "distinct (map role fso) \<Longrightarrow> distinct (map role (activeSpeakingOrder fso R))"
  unfolding activeSpeakingOrder_def by (rule distinct_map_filter)

text \<open>
  Claim C6. Whenever \<open>advanceSpeaker\<close> is called on an existing room whose current slot (the
  slot of the full format at \<open>currentSpeakerIndex\<close>, 0 when null) has the role of the last
  slot of the active order, it returns \<open>{completed: true, nextSpeakerIndex: null}\<close> and the
  room it leaves has \<open>status = completed\<close>, \<open>currentPhase = feedback\<close> and \<open>endedAt\<close> = the
  time of the call, every other column as before.
\<close>

theorem advanceSpeaker_on_last_slot_completes:
  fixes db :: store and rid :: int and room :: debateRoom
  defines "active \<equiv> activeSpeakingOrder SPEAKING_ORDER
      (set (map speakerRole (getRoomParticipants db rid)))"
  assumes room: "getDebateRoomById db rid = Some room"
    and nonempty: "active \<noteq> []"
    and current: "map_option role (js_index SPEAKING_ORDER (or_zero (currentSpeakerIndex room)))
        = Some (role (last active))"
  shows "fst (advanceSpeaker SPEAKING_ORDER db now rid)
      = Inr \<lparr>completed = True, nextSpeakerIndex = None\<rparr>
    \<and> getDebateRoomById (snd (advanceSpeaker SPEAKING_ORDER db now rid)) rid
      = Some (room\<lparr>currentPhase := feedback, status := completed_status, endedAt := Some now\<rparr>)"
proof -
  let ?k = "length active - 1"
  have d: "distinct (map role active)"
    unfolding active_def using SPEAKING_ORDER_roles_distinct by (rule distinct_roles_active)
  from nonempty have k: "?k < length active" by simp
  from nonempty have lst: "last active = active ! ?k" by (rule last_conv_nth)
  have "findIndex (\<lambda>s. role s = role (active ! ?k)) active = int ?k"
    using findIndex_from_nth[OF d k, of 0] by (simp add: findIndex_def)
  then have cai: "findIndex (\<lambda>s. Some (role s) =
      map_option role (js_index SPEAKING_ORDER (or_zero (currentSpeakerIndex room)))) active
      = int ?k"
    by (simp add: current lst)
  have fin: "int ?k + 1 \<ge> int (length active)" by simp
  show ?thesis
    unfolding advanceSpeaker_existing[OF room] active_def[symmetric] cai
    using fin room by (simp add: getDebateRoomById_update)
qed

theorem advanceSpeaker_on_last_slot_completes_witness:
  "fst (advanceSpeaker SPEAKING_ORDER example_last_slot 500 1)
      = Inr \<lparr>completed = True, nextSpeakerIndex = None\<rparr>
   \<and> getDebateRoomById (snd (advanceSpeaker SPEAKING_ORDER example_last_slot 500 1)) 1
      = Some (example_room\<lparr>status := completed_status, currentPhase := feedback,
           currentSpeakerIndex := Some 7, startedAt := Some 100, endedAt := Some 500\<rparr>)"
proof -
  let ?room = "example_room\<lparr>status := in_progress, currentPhase := debate,
           currentSpeakerIndex := Some 7, startedAt := Some 100\<rparr>"
  have room: "getDebateRoomById example_last_slot 1 = Some ?room"
    by (simp add: store_defs example_defs)
  have act: "activeSpeakingOrder SPEAKING_ORDER
      (set (map speakerRole (getRoomParticipants example_last_slot 1))) =
      [SPEAKING_ORDER ! 0, SPEAKING_ORDER ! 1, SPEAKING_ORDER ! 6, SPEAKING_ORDER ! 7]"
    by (simp add: store_defs example_defs activeSpeakingOrder_def SPEAKING_ORDER_def
        speaker_present_def)
  have nonempty: "activeSpeakingOrder SPEAKING_ORDER
      (set (map speakerRole (getRoomParticipants example_last_slot 1))) \<noteq> []"
    unfolding act by simp
  have current: "map_option role (js_index SPEAKING_ORDER (or_zero (currentSpeakerIndex ?room)))
      = Some (role (last (activeSpeakingOrder SPEAKING_ORDER
          (set (map speakerRole (getRoomParticipants example_last_slot 1))))))"
    unfolding act by (simp add: js_index_def or_zero_def SPEAKING_ORDER_def)
  show ?thesis
    using advanceSpeaker_on_last_slot_completes[OF room nonempty current, of 500]
    by (simp add: example_room_def)
qed


text \<open>
  Claim C9. For every format, every store in which the room exists and every persisted
  \<open>currentSpeakerIndex\<close> (null, 0, negative or beyond the format), \<open>advanceSpeaker\<close> returns
  a result: it neither throws nor reads a property of \<open>undefined\<close>. If the active order is
  not empty and none of its slots has the role of the slot looked up by the index (in
  particular when the lookup yields \<open>undefined\<close>), the result is \<open>completed = false\<close> with
  the full-format index of the first slot of the active order; if the active order is
  empty, the result is \<open>completed = true\<close>.
\<close>

theorem advanceSpeaker_total_with_fallback:
  fixes fso :: "slot list" and db :: store and rid :: int and room :: debateRoom
  defines "active \<equiv> activeSpeakingOrder fso (set (map speakerRole (getRoomParticipants db rid)))"
  assumes room: "getDebateRoomById db rid = Some room"
  shows "(\<exists>out. fst (advanceSpeaker fso db now rid) = Inr out)
    \<and> (active \<noteq> []
        \<and> (\<forall>s \<in> set active. Some (role s) \<noteq>
              map_option role (js_index fso (or_zero (currentSpeakerIndex room))))
       \<longrightarrow> fst (advanceSpeaker fso db now rid) =
             Inr \<lparr>completed = False,
                  nextSpeakerIndex = Some (findIndex (\<lambda>s. role s = role (hd active)) fso)\<rparr>)
    \<and> (active = []
       \<longrightarrow> fst (advanceSpeaker fso db now rid) =
             Inr \<lparr>completed = True, nextSpeakerIndex = None\<rparr>)"
proof (intro conjI impI)
  show "\<exists>out. fst (advanceSpeaker fso db now rid) = Inr out"
    unfolding advanceSpeaker_existing[OF room] by simp
next
  assume stale: "active \<noteq> []
        \<and> (\<forall>s \<in> set active. Some (role s) \<noteq>
              map_option role (js_index fso (or_zero (currentSpeakerIndex room))))"
  then have "findIndex (\<lambda>s. Some (role s) =
      map_option role (js_index fso (or_zero (currentSpeakerIndex room)))) active = - 1"
    by (simp add: findIndex_def findIndex_from_none)
  with stale show "fst (advanceSpeaker fso db now rid) =
             Inr \<lparr>completed = False,
                  nextSpeakerIndex = Some (findIndex (\<lambda>s. role s = role (hd active)) fso)\<rparr>"
    unfolding advanceSpeaker_existing[OF room] active_def[symmetric]
    by (simp add: hd_conv_nth)
next
  assume "active = []"
  then show "fst (advanceSpeaker fso db now rid) =
             Inr \<lparr>completed = True, nextSpeakerIndex = None\<rparr>"
    unfolding advanceSpeaker_existing[OF room] active_def[symmetric]
    by (simp add: findIndex_def)
qed

theorem advanceSpeaker_total_with_fallback_witness:
  "fst (advanceSpeaker SPEAKING_ORDER example_stale_index 200 1) =
     Inr \<lparr>completed = False, nextSpeakerIndex = Some 0\<rparr>
   \<and> fst (advanceSpeaker SPEAKING_ORDER example_empty_roster 200 1) =
     Inr \<lparr>completed = True, nextSpeakerIndex = None\<rparr>"
proof -
  let ?stale = "example_room\<lparr>status := in_progress, currentPhase := debate,
           currentSpeakerIndex := Some 42, startedAt := Some 100\<rparr>"
  let ?gone = "example_room\<lparr>status := in_progress, currentPhase := debate,
           currentSpeakerIndex := None, startedAt := Some 100\<rparr>"
  have room1: "getDebateRoomById example_stale_index 1 = Some ?stale"
    by (simp add: store_defs example_defs)
  have room2: "getDebateRoomById example_empty_roster 1 = Some ?gone"
    by (simp add: store_defs example_defs)
  have act1: "activeSpeakingOrder SPEAKING_ORDER
      (set (map speakerRole (getRoomParticipants example_stale_index 1))) =
      [SPEAKING_ORDER ! 0, SPEAKING_ORDER ! 1, SPEAKING_ORDER ! 6, SPEAKING_ORDER ! 7]"
    by (simp add: store_defs example_defs activeSpeakingOrder_def SPEAKING_ORDER_def
        speaker_present_def)
  have act2: "activeSpeakingOrder SPEAKING_ORDER
      (set (map speakerRole (getRoomParticipants example_empty_roster 1))) = []"
    by (simp add: store_defs example_defs activeSpeakingOrder_def SPEAKING_ORDER_def
        speaker_present_def)
  have look: "js_index SPEAKING_ORDER (or_zero (currentSpeakerIndex ?stale)) = None"
    by (simp add: js_index_def or_zero_def SPEAKING_ORDER_def)
  have first: "findIndex (\<lambda>s. role s = role (SPEAKING_ORDER ! 0)) SPEAKING_ORDER = 0"
    by (simp add: findIndex_def SPEAKING_ORDER_def)
  from advanceSpeaker_total_with_fallback[OF room1, of SPEAKING_ORDER 200]
  have "fst (advanceSpeaker SPEAKING_ORDER example_stale_index 200 1) =
     Inr \<lparr>completed = False, nextSpeakerIndex = Some 0\<rparr>"
    unfolding act1 look by (simp add: first)
  moreover from advanceSpeaker_total_with_fallback[OF room2, of SPEAKING_ORDER 200]
  have "fst (advanceSpeaker SPEAKING_ORDER example_empty_roster 200 1) =
     Inr \<lparr>completed = True, nextSpeakerIndex = None\<rparr>"
    unfolding act2 by simp
  ultimately show ?thesis by simp
qed


text \<open>
  Claim C10. For an existing room whose \<open>currentSpeakerIndex\<close> (0 when null) points at a slot
  of the format whose role occurs in the active order, every \<open>advanceSpeaker\<close> call that
  does not complete the debate returns a \<open>nextSpeakerIndex\<close> strictly greater than that
  index; the new index is persisted and again points at a slot of the active order, so
  successive calls walk the full-format indices strictly upward.
\<close>

theorem advanceSpeaker_index_increases:
  fixes db :: store and rid :: int and room :: debateRoom
  defines "active \<equiv> activeSpeakingOrder SPEAKING_ORDER
      (set (map speakerRole (getRoomParticipants db rid)))"
  assumes room: "getDebateRoomById db rid = Some room"
    and current: "js_index SPEAKING_ORDER (or_zero (currentSpeakerIndex room)) = Some cur"
    and present: "role cur \<in> role ` set active"
    and result: "fst (advanceSpeaker SPEAKING_ORDER db now rid) = Inr out"
    and continues: "\<not> completed out"
  shows "\<exists>j nx. nextSpeakerIndex out = Some j
      \<and> or_zero (currentSpeakerIndex room) < j
      \<and> js_index SPEAKING_ORDER j = Some nx \<and> nx \<in> set active
      \<and> map_option currentSpeakerIndex
           (getDebateRoomById (snd (advanceSpeaker SPEAKING_ORDER db now rid)) rid)
          = Some (Some j)"
proof -
  let ?R = "set (map speakerRole (getRoomParticipants db rid))"
  let ?p = "speaker_present ?R"
  let ?i = "nat (or_zero (currentSpeakerIndex room))"
  have act: "active = filter ?p SPEAKING_ORDER"
    by (simp only: active_def activeSpeakingOrder_def)
  from current have i0: "0 \<le> or_zero (currentSpeakerIndex room)"
    and i: "?i < length SPEAKING_ORDER" and cur: "cur = SPEAKING_ORDER ! ?i"
    by (auto simp: js_index_def split: if_splits)
  from present obtain s where s: "s \<in> set SPEAKING_ORDER" "?p s" "role s = role cur"
    by (auto simp: act)
  from i cur have "cur \<in> set SPEAKING_ORDER" by simp
  with s SPEAKING_ORDER_roles_distinct have "s = cur"
    by (auto simp: distinct_map dest: inj_onD)
  with s cur have p: "?p (SPEAKING_ORDER ! ?i)" by simp
  let ?cai = "findIndex (\<lambda>s. role s = role (SPEAKING_ORDER ! ?i)) (filter ?p SPEAKING_ORDER)"
  have cai: "findIndex (\<lambda>s. Some (role s) =
      map_option role (js_index SPEAKING_ORDER (or_zero (currentSpeakerIndex room)))) active = ?cai"
    by (simp add: current cur act)
  from result continues have more: "?cai + 1 < int (length (filter ?p SPEAKING_ORDER))"
    unfolding advanceSpeaker_existing[OF room] active_def[symmetric] cai
    by (auto simp: act split: if_splits)
  from next_active_index[OF SPEAKING_ORDER_roles_distinct i p more]
  obtain j where j: "findIndex (\<lambda>s. role s = role (filter ?p SPEAKING_ORDER ! nat (?cai + 1)))
        SPEAKING_ORDER = int j"
      "?i < j" "j < length SPEAKING_ORDER"
      "SPEAKING_ORDER ! j = filter ?p SPEAKING_ORDER ! nat (?cai + 1)"
      "?p (filter ?p SPEAKING_ORDER ! nat (?cai + 1))"
    by blast
  let ?nx = "SPEAKING_ORDER ! j"
  from j(3) have mem: "?nx \<in> set SPEAKING_ORDER" by (rule nth_mem)
  from j(5) have "?p ?nx" by (simp only: j(4))
  with mem have nx: "?nx \<in> set active" by (simp only: act set_filter mem_Collect_eq)
  have look: "js_index SPEAKING_ORDER (int j) = Some ?nx"
    using j(3) by (simp add: js_index_def)
  from j(2) i0 have lt: "or_zero (currentSpeakerIndex room) < int j" by simp
  have adv: "advanceSpeaker SPEAKING_ORDER db now rid =
      (Inr \<lparr>completed = False, nextSpeakerIndex = Some (int j)\<rparr>,
       updateDebateRoom db rid (\<lambda>r. r\<lparr>currentSpeakerIndex := Some (int j)\<rparr>))"
    unfolding advanceSpeaker_existing[OF room]
    unfolding active_def[symmetric]
    unfolding cai
    unfolding act
    unfolding j(1)
    using more by simp
  from result have out: "nextSpeakerIndex out = Some (int j)"
    by (auto simp: adv)
  have persisted: "map_option currentSpeakerIndex
      (getDebateRoomById (snd (advanceSpeaker SPEAKING_ORDER db now rid)) rid) = Some (Some (int j))"
    using room by (simp add: adv getDebateRoomById_update)
  from out lt look nx persisted show ?thesis by blast
qed


theorem advanceSpeaker_index_increases_witness:
  "\<exists>j nx. nextSpeakerIndex \<lparr>completed = False, nextSpeakerIndex = Some 6\<rparr> = Some j
      \<and> or_zero (currentSpeakerIndex (example_room\<lparr>currentSpeakerIndex := Some 1\<rparr>)) < j
      \<and> js_index SPEAKING_ORDER j = Some nx
      \<and> nx \<in> set (activeSpeakingOrder SPEAKING_ORDER
            (set (map speakerRole (getRoomParticipants
               (updateDebateRoom example_two_speakers 1 (\<lambda>r. r\<lparr>currentSpeakerIndex := Some 1\<rparr>)) 1))))
      \<and> map_option currentSpeakerIndex
           (getDebateRoomById (snd (advanceSpeaker SPEAKING_ORDER
              (updateDebateRoom example_two_speakers 1 (\<lambda>r. r\<lparr>currentSpeakerIndex := Some 1\<rparr>))
              200 1)) 1)
          = Some (Some j)"
proof -
  let ?db = "updateDebateRoom example_two_speakers 1 (\<lambda>r. r\<lparr>currentSpeakerIndex := Some 1\<rparr>)"
  let ?room = "example_room\<lparr>currentSpeakerIndex := Some 1\<rparr>"
  have room: "getDebateRoomById ?db 1 = Some ?room"
    by (simp add: store_defs example_defs)
  have current: "js_index SPEAKING_ORDER (or_zero (currentSpeakerIndex ?room))
      = Some (SPEAKING_ORDER ! 1)"
    by (simp add: js_index_def or_zero_def SPEAKING_ORDER_def)
  have act: "activeSpeakingOrder SPEAKING_ORDER
      (set (map speakerRole (getRoomParticipants ?db 1))) =
      [SPEAKING_ORDER ! 0, SPEAKING_ORDER ! 1, SPEAKING_ORDER ! 6, SPEAKING_ORDER ! 7]"
    by (simp add: store_defs example_defs activeSpeakingOrder_def SPEAKING_ORDER_def
        speaker_present_def)
  have present: "role (SPEAKING_ORDER ! 1) \<in> role ` set (activeSpeakingOrder SPEAKING_ORDER
      (set (map speakerRole (getRoomParticipants ?db 1))))"
    unfolding act by simp
  have result: "fst (advanceSpeaker SPEAKING_ORDER ?db 200 1)
      = Inr \<lparr>completed = False, nextSpeakerIndex = Some 6\<rparr>"
    unfolding advanceSpeaker_existing[OF room] unfolding act
    by (simp add: SPEAKING_ORDER_def js_index_def or_zero_def findIndex_def)
  have continues: "\<not> completed \<lparr>completed = False, nextSpeakerIndex = Some 6\<rparr>"
    by simp
  show ?thesis
    by (rule advanceSpeaker_index_increases[OF room current present result continues])
qed

text \<open>
  Claim C3, as stated, fails: \<open>advanceSpeaker\<close> does not look at the status of the room. On
  a room that is already completed (ended at 500) a further call at 600 is not rejected; it
  returns \<open>completed = true\<close> again and overwrites \<open>endedAt\<close> with 600.
\<close>

theorem advanceSpeaker_after_completion_counterexample:
  "map_option status (getDebateRoomById example_completed 1) = Some completed_status
   \<and> map_option endedAt (getDebateRoomById example_completed 1) = Some (Some 500)
   \<and> fst (advanceSpeaker SPEAKING_ORDER example_completed 600 1)
       = Inr \<lparr>completed = True, nextSpeakerIndex = None\<rparr>
   \<and> map_option endedAt
         (getDebateRoomById (snd (advanceSpeaker SPEAKING_ORDER example_completed 600 1)) 1)
       = Some (Some 600)
   \<and> snd (advanceSpeaker SPEAKING_ORDER example_completed 600 1) \<noteq> example_completed"
  by (simp add: advanceSpeaker_def store_defs example_defs Let_def js_index_def or_zero_def
      findIndex_def activeSpeakingOrder_def speaker_present_def SPEAKING_ORDER_def)

text \<open>
  Claim C3, amended. Calling \<open>advanceSpeaker\<close> again after a call that completed the debate
  is not rejected and does not fail: it returns \<open>{completed: true, nextSpeakerIndex: null}\<close>
  again and leaves \<open>status = completed\<close>, \<open>currentPhase = feedback\<close>, \<open>currentSpeakerIndex\<close>
  and every other column as the completing call left them, except \<open>endedAt\<close>, which it
  overwrites with the time of the new call.
\<close>

theorem advanceSpeaker_again_after_completion:
  assumes room: "getDebateRoomById db rid = Some room"
    and finished: "fst (advanceSpeaker fso db now rid) = Inr out" "completed out"
  shows "getDebateRoomById (snd (advanceSpeaker fso db now rid)) rid
      = Some (room\<lparr>currentPhase := feedback, status := completed_status, endedAt := Some now\<rparr>)
    \<and> fst (advanceSpeaker fso (snd (advanceSpeaker fso db now rid)) later rid)
      = Inr \<lparr>completed = True, nextSpeakerIndex = None\<rparr>
    \<and> getDebateRoomById
        (snd (advanceSpeaker fso (snd (advanceSpeaker fso db now rid)) later rid)) rid
      = Some (room\<lparr>currentPhase := feedback, status := completed_status,
                 endedAt := Some later\<rparr>)"
proof -
  let ?active = "activeSpeakingOrder fso (set (map speakerRole (getRoomParticipants db rid)))"
  let ?cai = "findIndex (\<lambda>s. Some (role s) =
      map_option role (js_index fso (or_zero (currentSpeakerIndex room)))) ?active"
  let ?f = "\<lambda>t r. r\<lparr>currentPhase := feedback, status := completed_status, endedAt := Some t\<rparr>"
  from finished have last: "?cai + 1 \<ge> int (length ?active)"
    unfolding advanceSpeaker_existing[OF room] by (auto split: if_splits)
  then have first: "advanceSpeaker fso db now rid =
      (Inr \<lparr>completed = True, nextSpeakerIndex = None\<rparr>, updateDebateRoom db rid (?f now))"
    unfolding advanceSpeaker_existing[OF room] by simp
  have room1: "getDebateRoomById (updateDebateRoom db rid (?f now)) rid = Some (?f now room)"
    using room by (simp add: getDebateRoomById_update)
  have second: "advanceSpeaker fso (updateDebateRoom db rid (?f now)) later rid =
      (Inr \<lparr>completed = True, nextSpeakerIndex = None\<rparr>,
       updateDebateRoom (updateDebateRoom db rid (?f now)) rid (?f later))"
    unfolding advanceSpeaker_existing[OF room1] using last by simp
  show ?thesis
    unfolding first using room by (simp add: second getDebateRoomById_update)
qed

theorem advanceSpeaker_again_after_completion_witness:
  "getDebateRoomById (snd (advanceSpeaker SPEAKING_ORDER example_last_slot 500 1)) 1
      = Some (example_room\<lparr>status := completed_status, currentPhase := feedback,
           currentSpeakerIndex := Some 7, startedAt := Some 100, endedAt := Some 500\<rparr>)
   \<and> fst (advanceSpeaker SPEAKING_ORDER
          (snd (advanceSpeaker SPEAKING_ORDER example_last_slot 500 1)) 600 1)
      = Inr \<lparr>completed = True, nextSpeakerIndex = None\<rparr>
   \<and> getDebateRoomById
        (snd (advanceSpeaker SPEAKING_ORDER
          (snd (advanceSpeaker SPEAKING_ORDER example_last_slot 500 1)) 600 1)) 1
      = Some (example_room\<lparr>status := completed_status, currentPhase := feedback,
           currentSpeakerIndex := Some 7, startedAt := Some 100, endedAt := Some 600\<rparr>)"
proof -
  let ?room = "example_room\<lparr>status := in_progress, currentPhase := debate,
           currentSpeakerIndex := Some 7, startedAt := Some 100\<rparr>"
  have room: "getDebateRoomById example_last_slot 1 = Some ?room"
    by (simp add: store_defs example_defs)
  have act: "activeSpeakingOrder SPEAKING_ORDER
      (set (map speakerRole (getRoomParticipants example_last_slot 1))) =
      [SPEAKING_ORDER ! 0, SPEAKING_ORDER ! 1, SPEAKING_ORDER ! 6, SPEAKING_ORDER ! 7]"
    by (simp add: store_defs example_defs activeSpeakingOrder_def SPEAKING_ORDER_def
        speaker_present_def)
  have finished: "fst (advanceSpeaker SPEAKING_ORDER example_last_slot 500 1)
      = Inr \<lparr>completed = True, nextSpeakerIndex = None\<rparr>"
    unfolding advanceSpeaker_existing[OF room] unfolding act
    by (simp add: SPEAKING_ORDER_def js_index_def or_zero_def findIndex_def)
  have "completed \<lparr>completed = True, nextSpeakerIndex = None\<rparr>" by simp
  from advanceSpeaker_again_after_completion[OF room finished this, of 600]
  show ?thesis by (simp add: example_room_def)
qed

section \<open>The two-speaker debate\<close>

lemma active_two_speakers:
  "activeSpeakingOrder SPEAKING_ORDER {prime_minister, leader_of_opposition} =
     [ \<lparr>role = prime_minister, team = government, label = ''Prime Minister'', time = 420\<rparr>,
       \<lparr>role = leader_of_opposition, team = opposition, label = ''Leader of Opposition'', time = 420\<rparr>,
       \<lparr>role = opposition_reply, team = opposition, label = ''Opposition Reply'', time = 240\<rparr>,
       \<lparr>role = government_reply, team = government, label = ''Government Reply'', time = 240\<rparr> ]"
  by (simp add: activeSpeakingOrder_def SPEAKING_ORDER_def speaker_present_def)

lemma two_speaker_step:
  assumes room: "getDebateRoomById db rid = Some room"
    and roster: "set (map speakerRole (getRoomParticipants db rid)) =
      {prime_minister, leader_of_opposition}"
  shows "currentSpeakerIndex room = Some 0 \<Longrightarrow>
      advanceSpeaker SPEAKING_ORDER db now rid =
       (Inr \<lparr>completed = False, nextSpeakerIndex = Some 1\<rparr>,
        updateDebateRoom db rid (\<lambda>r. r\<lparr>currentSpeakerIndex := Some 1\<rparr>))"
    and "currentSpeakerIndex room = Some 1 \<Longrightarrow>
      advanceSpeaker SPEAKING_ORDER db now rid =
       (Inr \<lparr>completed = False, nextSpeakerIndex = Some 6\<rparr>,
        updateDebateRoom db rid (\<lambda>r. r\<lparr>currentSpeakerIndex := Some 6\<rparr>))"
    and "currentSpeakerIndex room = Some 6 \<Longrightarrow>
      advanceSpeaker SPEAKING_ORDER db now rid =
       (Inr \<lparr>completed = False, nextSpeakerIndex = Some 7\<rparr>,
        updateDebateRoom db rid (\<lambda>r. r\<lparr>currentSpeakerIndex := Some 7\<rparr>))"
    and "currentSpeakerIndex room = Some 7 \<Longrightarrow>
      advanceSpeaker SPEAKING_ORDER db now rid =
       (Inr \<lparr>completed = True, nextSpeakerIndex = None\<rparr>,
        updateDebateRoom db rid
          (\<lambda>r. r\<lparr>currentPhase := feedback, status := completed_status, endedAt := Some now\<rparr>))"
  unfolding advanceSpeaker_existing[OF room] roster active_two_speakers
  by (simp_all add: SPEAKING_ORDER_def js_index_def or_zero_def findIndex_def)


lemma two_speaker_advances:
  assumes room: "getDebateRoomById db rid = Some room"
    and roster: "set (map speakerRole (getRoomParticipants db rid)) =
      {prime_minister, leader_of_opposition}"
    and idx: "currentSpeakerIndex room = Some 0"
  shows "run_advances SPEAKING_ORDER db rid [t1, t2, t3, t4, t5] =
       [Inr \<lparr>completed = False, nextSpeakerIndex = Some 1\<rparr>,
        Inr \<lparr>completed = False, nextSpeakerIndex = Some 6\<rparr>,
        Inr \<lparr>completed = False, nextSpeakerIndex = Some 7\<rparr>,
        Inr \<lparr>completed = True, nextSpeakerIndex = None\<rparr>,
        Inr \<lparr>completed = True, nextSpeakerIndex = None\<rparr>]"
proof -
  let ?db1 = "updateDebateRoom db rid (\<lambda>r. r\<lparr>currentSpeakerIndex := Some 1\<rparr>)"
  let ?db2 = "updateDebateRoom ?db1 rid (\<lambda>r. r\<lparr>currentSpeakerIndex := Some 6\<rparr>)"
  let ?db3 = "updateDebateRoom ?db2 rid (\<lambda>r. r\<lparr>currentSpeakerIndex := Some 7\<rparr>)"
  let ?db4 = "updateDebateRoom ?db3 rid
      (\<lambda>r. r\<lparr>currentPhase := feedback, status := completed_status, endedAt := Some t4\<rparr>)"
  let ?db5 = "updateDebateRoom ?db4 rid
      (\<lambda>r. r\<lparr>currentPhase := feedback, status := completed_status, endedAt := Some t5\<rparr>)"
  have r1: "getDebateRoomById ?db1 rid = Some (room\<lparr>currentSpeakerIndex := Some 1\<rparr>)"
    using room by (simp add: getDebateRoomById_update)
  have r2: "getDebateRoomById ?db2 rid = Some (room\<lparr>currentSpeakerIndex := Some 6\<rparr>)"
    using room by (simp add: getDebateRoomById_update)
  have r3: "getDebateRoomById ?db3 rid = Some (room\<lparr>currentSpeakerIndex := Some 7\<rparr>)"
    using room by (simp add: getDebateRoomById_update)
  have r4: "getDebateRoomById ?db4 rid = Some (room\<lparr>currentSpeakerIndex := Some 7,
      currentPhase := feedback, status := completed_status, endedAt := Some t4\<rparr>)"
    using room by (simp add: getDebateRoomById_update)
  have p1: "set (map speakerRole (getRoomParticipants ?db1 rid)) =
      {prime_minister, leader_of_opposition}"
    and p2: "set (map speakerRole (getRoomParticipants ?db2 rid)) =
      {prime_minister, leader_of_opposition}"
    and p3: "set (map speakerRole (getRoomParticipants ?db3 rid)) =
      {prime_minister, leader_of_opposition}"
    and p4: "set (map speakerRole (getRoomParticipants ?db4 rid)) =
      {prime_minister, leader_of_opposition}"
    using roster by simp_all
  have a1: "advanceSpeaker SPEAKING_ORDER db t1 rid =
      (Inr \<lparr>completed = False, nextSpeakerIndex = Some 1\<rparr>, ?db1)"
    using idx by (rule two_speaker_step(1)[OF room roster])
  have a2: "advanceSpeaker SPEAKING_ORDER ?db1 t2 rid =
      (Inr \<lparr>completed = False, nextSpeakerIndex = Some 6\<rparr>, ?db2)"
    by (rule two_speaker_step(2)[OF r1 p1]) simp
  have a3: "advanceSpeaker SPEAKING_ORDER ?db2 t3 rid =
      (Inr \<lparr>completed = False, nextSpeakerIndex = Some 7\<rparr>, ?db3)"
    by (rule two_speaker_step(3)[OF r2 p2]) simp
  have a4: "advanceSpeaker SPEAKING_ORDER ?db3 t4 rid =
      (Inr \<lparr>completed = True, nextSpeakerIndex = None\<rparr>, ?db4)"
    by (rule two_speaker_step(4)[OF r3 p3]) simp
  have a5: "advanceSpeaker SPEAKING_ORDER ?db4 t5 rid =
      (Inr \<lparr>completed = True, nextSpeakerIndex = None\<rparr>, ?db5)"
    by (rule two_speaker_step(4)[OF r4 p4]) simp
  show ?thesis by (simp only: run_advances.simps a1 a2 a3 a4 a5 fst_conv snd_conv)
qed

lemma firstSpeakerLoop_two_speakers:
  "firstSpeakerLoop SPEAKING_ORDER {prime_minister, leader_of_opposition} 0 0 = 0"
  by (simp add: SPEAKING_ORDER_def)

lemma two_speaker_started:
  assumes room: "getDebateRoomById db rid = Some room"
    and creator: "creatorId room = caller"
    and motion: "motionId room = Some m" "m \<noteq> 0"
    and ready: "\<forall>p \<in> set (getRoomParticipants db rid). isReady p = Some True"
    and roster: "set (map speakerRole (getRoomParticipants db rid)) =
      {prime_minister, leader_of_opposition}"
  shows "fst (start SPEAKING_ORDER db t0 caller rid) = Inr \<lparr>success = True\<rparr>
    \<and> run_advances SPEAKING_ORDER (snd (start SPEAKING_ORDER db t0 caller rid)) rid
         [t1, t2, t3, t4, t5] =
       [Inr \<lparr>completed = False, nextSpeakerIndex = Some 1\<rparr>,
        Inr \<lparr>completed = False, nextSpeakerIndex = Some 6\<rparr>,
        Inr \<lparr>completed = False, nextSpeakerIndex = Some 7\<rparr>,
        Inr \<lparr>completed = True, nextSpeakerIndex = None\<rparr>,
        Inr \<lparr>completed = True, nextSpeakerIndex = None\<rparr>]"
proof -
  let ?f = "\<lambda>r. r\<lparr>status := in_progress, currentPhase := debate,
      currentSpeakerIndex := Some 0, startedAt := Some t0\<rparr>"
  let ?db0 = "updateDebateRoom db rid ?f"
  from roster have joined: "getRoomParticipants db rid \<noteq> []" by auto
  have st: "start SPEAKING_ORDER db t0 caller rid = (Inr \<lparr>success = True\<rparr>, ?db0)"
    unfolding start_ok[OF room creator motion joined ready] roster firstSpeakerLoop_two_speakers
    by (rule refl)
  have r0: "getDebateRoomById ?db0 rid = Some (?f room)"
    using room by (simp add: getDebateRoomById_update)
  have p0: "set (map speakerRole (getRoomParticipants ?db0 rid)) =
      {prime_minister, leader_of_opposition}"
    using roster by simp
  have i0: "currentSpeakerIndex (?f room) = Some 0" by simp
  show ?thesis
    unfolding st fst_conv snd_conv using two_speaker_advances[OF r0 p0 i0] by simp
qed

lemma example_two_speakers_facts:
  "getDebateRoomById example_two_speakers 1 = Some example_room"
  "creatorId example_room = 10"
  "motionId example_room = Some 5"
  "\<forall>p \<in> set (getRoomParticipants example_two_speakers 1). isReady p = Some True"
  "set (map speakerRole (getRoomParticipants example_two_speakers 1)) =
      {prime_minister, leader_of_opposition}"
  by (simp_all add: store_defs example_defs)

text \<open>
  Claim C4, as stated, fails: with only the prime minister and the leader of the opposition
  joined, the fourth \<open>advanceSpeaker\<close> call after \<open>start\<close> already returns
  \<open>completed = true\<close>, so not all calls before the fifth return \<open>completed = false\<close>.
\<close>

theorem two_speaker_run_counterexample:
  "set (map speakerRole (getRoomParticipants example_two_speakers 1)) =
      {prime_minister, leader_of_opposition}
   \<and> fst (start SPEAKING_ORDER example_two_speakers 100 10 1) = Inr \<lparr>success = True\<rparr>
   \<and> run_advances SPEAKING_ORDER (snd (start SPEAKING_ORDER example_two_speakers 100 10 1)) 1
        [200, 300, 400, 500, 600] ! 3 = Inr \<lparr>completed = True, nextSpeakerIndex = None\<rparr>"
  using two_speaker_started[OF example_two_speakers_facts(1,2,3) _ example_two_speakers_facts(4,5),
      of 100 200 300 400 500 600]
    example_two_speakers_facts(5)
  by simp

text \<open>
  Claim C4, amended. If only \<open>prime_minister\<close> and \<open>leader_of_opposition\<close> joined, the active
  order is \<open>[prime_minister, leader_of_opposition, opposition_reply, government_reply]\<close>
  (four slots), and starting the debate and then calling \<open>advanceSpeaker\<close> repeatedly yields
  \<open>completed = true\<close> exactly on the fourth call: the first three calls return
  \<open>completed = false\<close> with the next indices 1, 6 and 7.
\<close>

theorem two_speaker_run:
  assumes room: "getDebateRoomById db rid = Some room"
    and creator: "creatorId room = caller"
    and motion: "motionId room = Some m" "m \<noteq> 0"
    and ready: "\<forall>p \<in> set (getRoomParticipants db rid). isReady p = Some True"
    and roster: "set (map speakerRole (getRoomParticipants db rid)) =
      {prime_minister, leader_of_opposition}"
  shows "map role (activeSpeakingOrder SPEAKING_ORDER
           (set (map speakerRole (getRoomParticipants db rid)))) =
       [prime_minister, leader_of_opposition, opposition_reply, government_reply]
    \<and> fst (start SPEAKING_ORDER db t0 caller rid) = Inr \<lparr>success = True\<rparr>
    \<and> run_advances SPEAKING_ORDER (snd (start SPEAKING_ORDER db t0 caller rid)) rid
         [t1, t2, t3, t4] =
       [Inr \<lparr>completed = False, nextSpeakerIndex = Some 1\<rparr>,
        Inr \<lparr>completed = False, nextSpeakerIndex = Some 6\<rparr>,
        Inr \<lparr>completed = False, nextSpeakerIndex = Some 7\<rparr>,
        Inr \<lparr>completed = True, nextSpeakerIndex = None\<rparr>]"
proof -
  have act: "map role (activeSpeakingOrder SPEAKING_ORDER
           (set (map speakerRole (getRoomParticipants db rid)))) =
       [prime_minister, leader_of_opposition, opposition_reply, government_reply]"
    unfolding roster active_two_speakers by simp
  from two_speaker_started[OF room creator motion ready roster, of t0 t1 t2 t3 t4 t4]
  have "fst (start SPEAKING_ORDER db t0 caller rid) = Inr \<lparr>success = True\<rparr>"
    and "run_advances SPEAKING_ORDER (snd (start SPEAKING_ORDER db t0 caller rid)) rid
         [t1, t2, t3, t4] =
       [Inr \<lparr>completed = False, nextSpeakerIndex = Some 1\<rparr>,
        Inr \<lparr>completed = False, nextSpeakerIndex = Some 6\<rparr>,
        Inr \<lparr>completed = False, nextSpeakerIndex = Some 7\<rparr>,
        Inr \<lparr>completed = True, nextSpeakerIndex = None\<rparr>]"
    by simp_all
  with act show ?thesis by simp
qed

theorem two_speaker_run_witness:
  "map role (activeSpeakingOrder SPEAKING_ORDER
           (set (map speakerRole (getRoomParticipants example_two_speakers 1)))) =
       [prime_minister, leader_of_opposition, opposition_reply, government_reply]
    \<and> fst (start SPEAKING_ORDER example_two_speakers 100 10 1) = Inr \<lparr>success = True\<rparr>
    \<and> run_advances SPEAKING_ORDER (snd (start SPEAKING_ORDER example_two_speakers 100 10 1)) 1
         [200, 300, 400, 500] =
       [Inr \<lparr>completed = False, nextSpeakerIndex = Some 1\<rparr>,
        Inr \<lparr>completed = False, nextSpeakerIndex = Some 6\<rparr>,
        Inr \<lparr>completed = False, nextSpeakerIndex = Some 7\<rparr>,
        Inr \<lparr>completed = True, nextSpeakerIndex = None\<rparr>]"
  by (rule two_speaker_run[OF example_two_speakers_facts(1,2,3) _ example_two_speakers_facts(4,5)])
    simp


section \<open>The order of the phases\<close>

lemma start_room_after:
  assumes room: "getDebateRoomById db rid = Some room"
  shows "getDebateRoomById (snd (start fso db now caller rid)) rid = Some room
    \<or> (\<exists>k. getDebateRoomById (snd (start fso db now caller rid)) rid =
          Some (room\<lparr>status := in_progress, currentPhase := debate,
                  currentSpeakerIndex := Some k, startedAt := Some now\<rparr>))"
  using room by (auto simp: start_def Let_def getDebateRoomById_update)

lemma advanceSpeaker_room_after:
  assumes room: "getDebateRoomById db rid = Some room"
  shows "getDebateRoomById (snd (advanceSpeaker fso db now rid)) rid =
       Some (room\<lparr>currentPhase := feedback, status := completed_status, endedAt := Some now\<rparr>)
    \<or> (\<exists>k. getDebateRoomById (snd (advanceSpeaker fso db now rid)) rid =
          Some (room\<lparr>currentSpeakerIndex := Some k\<rparr>))"
  unfolding advanceSpeaker_existing[OF room]
  using room by (auto simp: getDebateRoomById_update)

lemma phase_rank_le_feedback:
  "ph \<noteq> completed_phase \<Longrightarrow> phase_rank (Some ph) \<le> 2"
  by (cases ph) simp_all

lemma apply_op_phase:
  assumes room: "getDebateRoomById db rid = Some room"
    and inv: "status room = waiting \<longrightarrow> currentPhase room = setup_phase"
      "currentPhase room \<noteq> completed_phase"
    and guard: "case c of Start now caller \<Rightarrow> status room = waiting | AdvanceSpeaker now \<Rightarrow> True"
  shows "\<exists>room'. getDebateRoomById (apply_op fso db rid c) rid = Some room'
    \<and> (status room' = waiting \<longrightarrow> currentPhase room' = setup_phase)
    \<and> currentPhase room' \<noteq> completed_phase
    \<and> phase_rank (Some (currentPhase room)) \<le> phase_rank (Some (currentPhase room'))"
proof (cases c)
  case (Start now caller)
  with guard inv have "currentPhase room = setup_phase" by simp
  with start_room_after[OF room, of fso now caller] inv Start show ?thesis
    by auto
next
  case (AdvanceSpeaker now)
  with advanceSpeaker_room_after[OF room, of fso now] inv phase_rank_le_feedback[OF inv(2)]
  show ?thesis by auto
qed

lemma phase_trace_head:
  "\<exists>rest. phase_trace fso db rid cs = map_option currentPhase (getDebateRoomById db rid) # rest"
  by (cases cs) simp_all

text \<open>
  Claim C7, as stated, fails: \<open>start\<close> does not look at the status of the room. Called by
  the creator on a room that is already completed and in phase \<open>feedback\<close>, it succeeds and
  moves the room back to phase \<open>debate\<close> and status \<open>in_progress\<close>.
\<close>

theorem start_on_completed_room_counterexample:
  "map_option status (getDebateRoomById example_completed 1) = Some completed_status
   \<and> map_option currentPhase (getDebateRoomById example_completed 1) = Some feedback
   \<and> fst (start SPEAKING_ORDER example_completed 700 10 1) = Inr \<lparr>success = True\<rparr>
   \<and> map_option currentPhase
        (getDebateRoomById (snd (start SPEAKING_ORDER example_completed 700 10 1)) 1)
       = Some debate
   \<and> map_option status
        (getDebateRoomById (snd (start SPEAKING_ORDER example_completed 700 10 1)) 1)
       = Some in_progress"
  by (simp add: start_def store_defs example_defs no_motion_def SPEAKING_ORDER_def)

text \<open>
  Claim C7, amended. Take a room that is in phase \<open>setup\<close> whenever its status is
  \<open>waiting\<close> (as \<open>create\<close> leaves it) and whose phase is not \<open>completed\<close>. Under every
  sequence of \<open>start\<close> and \<open>advanceSpeaker\<close> calls in which each \<open>start\<close> is issued while
  the room's status is \<open>waiting\<close>, the phase never returns to an earlier phase: the ranks of
  the phases observed before the first and after each call are non-decreasing.
\<close>

theorem phase_monotone_when_started_from_waiting:
  assumes "getDebateRoomById db rid = Some room"
    and "status room = waiting \<longrightarrow> currentPhase room = setup_phase"
    and "currentPhase room \<noteq> completed_phase"
    and "starts_while_waiting fso db rid cs"
  shows "sorted (map phase_rank (phase_trace fso db rid cs))"
  using assms
proof (induction cs arbitrary: db room)
  case Nil
  then show ?case by simp
next
  case (Cons c cs)
  let ?db' = "apply_op fso db rid c"
  from Cons.prems(1,4)
  have guard: "case c of Start now caller \<Rightarrow> status room = waiting | AdvanceSpeaker now \<Rightarrow> True"
    by (cases c) simp_all
  from apply_op_phase[OF Cons.prems(1,2,3) guard, of fso]
  obtain room' where r': "getDebateRoomById ?db' rid = Some room'"
    and inv': "status room' = waiting \<longrightarrow> currentPhase room' = setup_phase"
      "currentPhase room' \<noteq> completed_phase"
    and le: "phase_rank (Some (currentPhase room)) \<le> phase_rank (Some (currentPhase room'))"
    by blast
  from Cons.prems(4) have rest: "starts_while_waiting fso ?db' rid cs" by simp
  from Cons.IH[OF r' inv' rest]
  have sorted': "sorted (map phase_rank (phase_trace fso ?db' rid cs))" .
  from phase_trace_head[of fso ?db' rid cs] r'
  obtain tail where tail: "phase_trace fso ?db' rid cs = Some (currentPhase room') # tail"
    by auto
  from sorted' le Cons.prems(1) show ?case
    by (auto simp: tail)
qed

theorem phase_monotone_when_started_from_waiting_witness:
  "sorted (map phase_rank (phase_trace SPEAKING_ORDER example_two_speakers 1
      [Start 100 10, AdvanceSpeaker 200, AdvanceSpeaker 300, AdvanceSpeaker 400,
       AdvanceSpeaker 500]))"
proof -
  have room: "getDebateRoomById example_two_speakers 1 = Some example_room"
    by (simp add: store_defs example_defs)
  have created: "status example_room = waiting \<longrightarrow> currentPhase example_room = setup_phase"
    and not_closed: "currentPhase example_room \<noteq> completed_phase"
    by (simp_all add: example_room_def)
  have guarded: "starts_while_waiting SPEAKING_ORDER example_two_speakers 1
      [Start 100 10, AdvanceSpeaker 200, AdvanceSpeaker 300, AdvanceSpeaker 400,
       AdvanceSpeaker 500]"
    by (simp add: room example_room_def)
  show ?thesis
    using room created not_closed guarded
    by (rule phase_monotone_when_started_from_waiting)
qed

end
